theory Spec2Isabelle
  imports Main "HOL-Library.Word"
begin

section \<open>Data model of the layout type graph (DLATypeSystem.h)\<close>

text \<open>
  A \<^verbatim>\<open>LayoutTypeSystemNode *\<close> is modelled as an address, a natural number. The nodes
  are placement-allocated from a bump allocator that never hands the same storage out
  twice, so the n-th node created is given address n. A pointer argument that the code
  tests against \<^verbatim>\<open>nullptr\<close> is an \<open>NodePtr option\<close>, with \<open>None\<close> for the null
  pointer.

  \<^verbatim>\<open>int64_t\<close> and \<^verbatim>\<open>uint64_t\<close> are 64-bit words: addition wraps, \<open>sint\<close> reads an
  offset as two's complement, and the order on words is the unsigned one (used for
  \<^verbatim>\<open>Size\<close>). Node identifiers are naturals: the counter \<^verbatim>\<open>NID\<close> only grows by one per
  created node, and the narrowing of an identifier to \<^verbatim>\<open>unsigned\<close> in \<^verbatim>\<open>mergeNodes\<close> and
  \<^verbatim>\<open>removeNode\<close> changes nothing below 2^32 nodes.
\<close>

type_synonym NodePtr = nat

datatype LinkKind = LK_Inheritance | LK_Equality | LK_Instance | LK_Pointer | LK_All

record OffsetExpression =
  Offset :: "64 word"
  Strides :: "64 word list"
  TripCounts :: "64 word option list"

text \<open>The constructor \<^verbatim>\<open>OffsetExpression(int64_t Off)\<close>; the default one passes 0.\<close>

definition OffsetExpressionOf :: "64 word \<Rightarrow> OffsetExpression" where
  "OffsetExpressionOf Off = \<lparr>Offset = Off, Strides = [], TripCounts = []\<rparr>"

record TypeLinkTag =
  OE :: OffsetExpression
  Kind :: LinkKind

definition equalityTag :: TypeLinkTag where
  "equalityTag = \<lparr>OE = OffsetExpressionOf 0, Kind = LK_Equality\<rparr>"

definition inheritanceTag :: TypeLinkTag where
  "inheritanceTag = \<lparr>OE = OffsetExpressionOf 0, Kind = LK_Inheritance\<rparr>"

definition instanceTag :: "OffsetExpression \<Rightarrow> TypeLinkTag" where
  "instanceTag oe = \<lparr>OE = oe, Kind = LK_Instance\<rparr>"

definition pointerTag :: TypeLinkTag where
  "pointerTag = \<lparr>OE = OffsetExpressionOf 0, Kind = LK_Pointer\<rparr>"

datatype InterferingChildrenInfo =
  Unknown | AllChildrenAreInterfering | AllChildrenAreNonInterfering

text \<open>
  A link is a pair of a neighbour and a \<^verbatim>\<open>const TypeLinkTag *\<close> into the graph's
  \<^verbatim>\<open>std::set<TypeLinkTag> LinkTags\<close>. That set holds one element per tag value and never
  loses an element, so two tag pointers are equal exactly when the tags are: the pointer
  is modelled by the tag it points to. A \<^verbatim>\<open>NeighborsSet\<close> (\<^verbatim>\<open>std::set<Link>\<close>) is a set
  of links; the order in which the code walks it depends on addresses and no operation's
  result depends on it.
\<close>

type_synonym Link = "NodePtr \<times> TypeLinkTag"

record LayoutTypeSystemNode =
  ID :: nat
  Successors :: "Link set"
  Predecessors :: "Link set"
  Size :: "64 word"
  InterferingInfo :: InterferingChildrenInfo

text \<open>
  How a call can end without returning: a failed \<^verbatim>\<open>revng_assert\<close> (or an assertion of
  the LLVM base class), \<^verbatim>\<open>revng_unreachable\<close>, a failed \<^verbatim>\<open>revng_check\<close> of the strict
  verification mode, and the use of a node that is not live or of an index out of range,
  which C++ leaves undefined.
\<close>

datatype error = AssertionFailure | Unreachable | CheckFailure | UndefinedBehaviour

section \<open>Equivalence classes with a removed class (VectEqClasses)\<close>

text \<open>
  Modelled from the spec: \<^verbatim>\<open>llvm::IntEqClasses\<close>, the base class of \<^verbatim>\<open>VectEqClasses\<close>,
  is a library class whose code is not among the sources. Its members \<^verbatim>\<open>grow\<close>,
  \<^verbatim>\<open>join\<close>, \<^verbatim>\<open>findLeader\<close>, \<^verbatim>\<open>operator[]\<close>, \<^verbatim>\<open>getNumClasses\<close> and \<^verbatim>\<open>compress\<close> are
  modelled by their contract: \<open>EC\<close> maps every identifier to the leader of its class, the
  smallest identifier of the class; \<open>NumClasses\<close> is 0 until \<^verbatim>\<open>compress\<close> numbers the
  classes densely, in the order of their leaders; \<^verbatim>\<open>grow\<close>, \<^verbatim>\<open>join\<close> and
  \<^verbatim>\<open>findLeader\<close> assert that the map is not compressed and \<^verbatim>\<open>operator[]\<close> that it is.
\<close>

record VectEqClasses =
  EC :: "nat list"
  NumClasses :: nat
  RemovedID :: "nat option"
  NElems :: nat

definition grow :: "nat \<Rightarrow> VectEqClasses \<Rightarrow> error + VectEqClasses" where
  "grow N c =
     (if NumClasses c \<noteq> 0 then Inl AssertionFailure
      else Inr (c\<lparr>EC := EC c @ [length (EC c)..<N]\<rparr>))"

definition join :: "nat \<Rightarrow> nat \<Rightarrow> VectEqClasses \<Rightarrow> error + VectEqClasses" where
  "join a b c =
     (if NumClasses c \<noteq> 0 then Inl AssertionFailure
      else if \<not> (a < length (EC c) \<and> b < length (EC c)) then Inl UndefinedBehaviour
      else let eca = EC c ! a; ecb = EC c ! b; m = min eca ecb
           in Inr (c\<lparr>EC := map (\<lambda>x. if x = eca \<or> x = ecb then m else x) (EC c)\<rparr>))"

definition findLeader :: "nat \<Rightarrow> VectEqClasses \<Rightarrow> error + nat" where
  "findLeader a c =
     (if NumClasses c \<noteq> 0 then Inl AssertionFailure
      else if \<not> a < length (EC c) then Inl UndefinedBehaviour
      else Inr (EC c ! a))"

definition lookupEqClass :: "nat \<Rightarrow> VectEqClasses \<Rightarrow> error + nat" where
  "lookupEqClass a c =
     (if NumClasses c = 0 then Inl AssertionFailure
      else if \<not> a < length (EC c) then Inl UndefinedBehaviour
      else Inr (EC c ! a))"

definition compressStep :: "nat \<Rightarrow> VectEqClasses \<Rightarrow> VectEqClasses" where
  "compressStep i c =
     (if EC c ! i = i
      then c\<lparr>EC := (EC c)[i := NumClasses c], NumClasses := NumClasses c + 1\<rparr>
      else c\<lparr>EC := (EC c)[i := EC c ! (EC c ! i)]\<rparr>)"

definition compress :: "VectEqClasses \<Rightarrow> VectEqClasses" where
  "compress c = (if NumClasses c \<noteq> 0 then c else fold compressStep [0..<length (EC c)] c)"

text \<open>The members of \<^verbatim>\<open>VectEqClasses\<close> itself (DLATypeSystem.cpp).\<close>

definition growBy1 :: "VectEqClasses \<Rightarrow> error + VectEqClasses" where
  "growBy1 c = grow (NElems c + 1) (c\<lparr>NElems := NElems c + 1\<rparr>)"

definition remove :: "nat \<Rightarrow> VectEqClasses \<Rightarrow> error + VectEqClasses" where
  "remove A c =
     (case RemovedID c of
        Some r \<Rightarrow> join A r c
      | None \<Rightarrow> Inr (c\<lparr>RemovedID := Some A\<rparr>))"

definition isRemoved :: "nat \<Rightarrow> VectEqClasses \<Rightarrow> error + bool" where
  "isRemoved i c =
     (case RemovedID c of
        None \<Rightarrow> Inr False
      | Some r \<Rightarrow>
          if NumClasses c = 0
          then (case findLeader i c of
                  Inl e \<Rightarrow> Inl e
                | Inr li \<Rightarrow> (case findLeader r c of Inl e \<Rightarrow> Inl e | Inr lr \<Rightarrow> Inr (li = lr)))
          else (case lookupEqClass i c of
                  Inl e \<Rightarrow> Inl e
                | Inr ci \<Rightarrow> (case lookupEqClass r c of Inl e \<Rightarrow> Inl e | Inr cr \<Rightarrow> Inr (ci = cr))))"

section \<open>The graph and its mutation operations (DLATypeSystem.h, DLATypeSystem.cpp)\<close>

text \<open>
  \<open>Heap\<close> is the storage behind \<^verbatim>\<open>NodeAllocator\<close>, \<open>Layouts\<close> the set of live nodes.
  The storage of a node that was merged away or removed is never handed out again; what
  \<open>Heap\<close> holds at an address outside \<open>Layouts\<close> means nothing.
\<close>

record LayoutTypeSystem =
  NID :: nat
  Heap :: "NodePtr \<Rightarrow> LayoutTypeSystemNode"
  Layouts :: "NodePtr set"
  LinkTags :: "TypeLinkTag set"
  EqClasses :: VectEqClasses

definition newNode :: "nat \<Rightarrow> LayoutTypeSystemNode" where
  "newNode I = \<lparr>ID = I, Successors = {}, Predecessors = {}, Size = 0, InterferingInfo = Unknown\<rparr>"

definition emptyTypeSystem :: LayoutTypeSystem where
  "emptyTypeSystem =
     \<lparr>NID = 0, Heap = (\<lambda>a. newNode 0), Layouts = {}, LinkTags = {},
      EqClasses = \<lparr>EC = [], NumClasses = 0, RemovedID = None, NElems = 0\<rparr>\<rparr>"

definition createArtificialLayoutType :: "LayoutTypeSystem \<Rightarrow> error + (NodePtr \<times> LayoutTypeSystem)" where
  "createArtificialLayoutType s =
     (let New = NID s in
      case growBy1 (EqClasses s) of
        Inl e \<Rightarrow> Inl e
      | Inr ec \<Rightarrow>
          if New \<in> Layouts s then Inl AssertionFailure
          else Inr (New, s\<lparr>NID := NID s + 1, Heap := (Heap s)(New := newNode (NID s)),
                           Layouts := insert New (Layouts s), EqClasses := ec\<rparr>))"

definition addLink ::
  "NodePtr option \<Rightarrow> NodePtr option \<Rightarrow> TypeLinkTag \<Rightarrow> LayoutTypeSystem
     \<Rightarrow> error + ((TypeLinkTag option \<times> bool) \<times> LayoutTypeSystem)" where
  "addLink Src Tgt Tag s =
     (case (Src, Tgt) of
        (Some src, Some tgt) \<Rightarrow>
          if src = tgt then Inr ((None, False), s)
          else if src \<notin> Layouts s then Inl AssertionFailure
          else if tgt \<notin> Layouts s then Inl AssertionFailure
          else
            let h = Heap s;
                New1 = ((tgt, Tag) \<notin> Successors (h src));
                h1 = h(src := (h src)\<lparr>Successors := insert (tgt, Tag) (Successors (h src))\<rparr>);
                New2 = ((src, Tag) \<notin> Predecessors (h1 tgt));
                h2 = h1(tgt := (h1 tgt)\<lparr>Predecessors := insert (src, Tag) (Predecessors (h1 tgt))\<rparr>)
            in Inr ((Some Tag, New1 \<or> New2), s\<lparr>Heap := h2, LinkTags := insert Tag (LinkTags s)\<rparr>)
      | _ \<Rightarrow> Inr ((None, False), s))"

definition addEqualityLink ::
  "NodePtr option \<Rightarrow> NodePtr option \<Rightarrow> LayoutTypeSystem
     \<Rightarrow> error + ((TypeLinkTag option \<times> bool) \<times> LayoutTypeSystem)" where
  "addEqualityLink Src Tgt s =
     (case addLink Src Tgt equalityTag s of
        Inl e \<Rightarrow> Inl e
      | Inr (ForwardLinkTag, s1) \<Rightarrow>
          (case addLink Tgt Src equalityTag s1 of
             Inl e \<Rightarrow> Inl e
           | Inr (BackwardLinkTag, s2) \<Rightarrow>
               if ForwardLinkTag = BackwardLinkTag then Inr (ForwardLinkTag, s2)
               else Inl AssertionFailure))"

definition addInheritanceLink ::
  "NodePtr option \<Rightarrow> NodePtr option \<Rightarrow> LayoutTypeSystem
     \<Rightarrow> error + ((TypeLinkTag option \<times> bool) \<times> LayoutTypeSystem)" where
  "addInheritanceLink Src Tgt s = addLink Src Tgt inheritanceTag s"

definition addInstanceLink ::
  "NodePtr option \<Rightarrow> NodePtr option \<Rightarrow> OffsetExpression \<Rightarrow> LayoutTypeSystem
     \<Rightarrow> error + ((TypeLinkTag option \<times> bool) \<times> LayoutTypeSystem)" where
  "addInstanceLink Src Tgt oe s = addLink Src Tgt (instanceTag oe) s"

definition addPointerLink ::
  "NodePtr option \<Rightarrow> NodePtr option \<Rightarrow> LayoutTypeSystem
     \<Rightarrow> error + ((TypeLinkTag option \<times> bool) \<times> LayoutTypeSystem)" where
  "addPointerLink Src Tgt s = addLink Src Tgt pointerTag s"

text \<open>
  \<^verbatim>\<open>fixPredSucc\<close>. The inner \<^verbatim>\<open>while\<close> loops take every entry of a neighbour's set
  whose first component is \<^verbatim>\<open>From\<close> (the range from \<^verbatim>\<open>lower_bound({From, nullptr})\<close> to
  \<^verbatim>\<open>upper_bound({std::next(From), nullptr})\<close>) out of the set and insert it again with
  \<^verbatim>\<open>Into\<close> in its place: \<open>retarget\<close>. The outer \<^verbatim>\<open>for\<close> loops do so for every
  neighbour named in \<^verbatim>\<open>From->Successors\<close>, then for every neighbour named in
  \<^verbatim>\<open>From->Predecessors\<close> as the first loop left it.
\<close>

definition retarget :: "NodePtr \<Rightarrow> NodePtr \<Rightarrow> Link set \<Rightarrow> Link set" where
  "retarget From Into S = {l \<in> S. fst l \<noteq> From} \<union> (\<lambda>l. (Into, snd l)) ` {l \<in> S. fst l = From}"

definition RemoveSelfEdges :: "NodePtr \<Rightarrow> NodePtr \<Rightarrow> Link set \<Rightarrow> Link set" where
  "RemoveSelfEdges From Into S = {l \<in> {l \<in> S. fst l \<noteq> From}. fst l \<noteq> Into}"

definition fixPredSucc ::
  "NodePtr \<Rightarrow> NodePtr \<Rightarrow> (NodePtr \<Rightarrow> LayoutTypeSystemNode)
     \<Rightarrow> error + (NodePtr \<Rightarrow> LayoutTypeSystemNode)" where
  "fixPredSucc From Into h =
     (if From = Into then Inl AssertionFailure
      else
        let h1 = (\<lambda>a. if a \<in> fst ` Successors (h From)
                       then (h a)\<lparr>Predecessors := retarget From Into (Predecessors (h a))\<rparr>
                       else h a);
            h2 = (\<lambda>a. if a \<in> fst ` Predecessors (h1 From)
                       then (h1 a)\<lparr>Successors := retarget From Into (Successors (h1 a))\<rparr>
                       else h1 a);
            h3 = h2(Into := (h2 Into)
                      \<lparr>Predecessors := Predecessors (h2 Into) \<union> Predecessors (h2 From),
                       Successors := Successors (h2 Into) \<union> Successors (h2 From)\<rparr>);
            h4 = h3(Into := (h3 Into)
                      \<lparr>Predecessors := RemoveSelfEdges From Into (Predecessors (h3 Into)),
                       Successors := RemoveSelfEdges From Into (Successors (h3 Into))\<rparr>)
        in Inr h4)"

text \<open>
  \<^verbatim>\<open>mergeNodes\<close>: \<open>mergeOne\<close> is the body of the loop over \<^verbatim>\<open>drop_begin(ToMerge, 1)\<close>.
  A \<^verbatim>\<open>From\<close> or \<^verbatim>\<open>Into\<close> that is not live is read through a dangling pointer, and so
  is a neighbour of \<^verbatim>\<open>From\<close> that is not live when \<^verbatim>\<open>fixPredSucc\<close> visits it.
\<close>

definition mergeOne :: "NodePtr \<Rightarrow> nat \<Rightarrow> NodePtr \<Rightarrow> LayoutTypeSystem \<Rightarrow> error + LayoutTypeSystem" where
  "mergeOne Into IntoID From s =
     (if From = Into then Inl AssertionFailure
      else if From \<notin> Layouts s then Inl UndefinedBehaviour
      else if \<not> fst ` Successors (Heap s From) \<union> fst ` Predecessors (Heap s From) \<subseteq> Layouts s
      then Inl UndefinedBehaviour
      else
        case join IntoID (ID (Heap s From)) (EqClasses s) of
          Inl e \<Rightarrow> Inl e
        | Inr ec \<Rightarrow>
            (case fixPredSucc From Into (Heap s) of
               Inl e \<Rightarrow> Inl e
             | Inr h \<Rightarrow>
                 let h1 = h(Into := (h Into)\<lparr>InterferingInfo := Unknown\<rparr>) in
                 if \<not> (Size (h1 Into) = 0 \<or> Size (h1 From) \<le> Size (h1 Into))
                 then Inl AssertionFailure
                 else
                   let h2 = h1(Into := (h1 Into)\<lparr>Size := max (Size (h1 Into)) (Size (h1 From))\<rparr>)
                   in Inr (s\<lparr>Heap := h2, Layouts := Layouts s - {From}, EqClasses := ec\<rparr>)))"

fun mergeLoop :: "NodePtr \<Rightarrow> nat \<Rightarrow> NodePtr list \<Rightarrow> LayoutTypeSystem \<Rightarrow> error + LayoutTypeSystem" where
  "mergeLoop Into IntoID [] s = Inr s"
| "mergeLoop Into IntoID (From # rest) s =
     (case mergeOne Into IntoID From s of
        Inl e \<Rightarrow> Inl e
      | Inr s' \<Rightarrow> mergeLoop Into IntoID rest s')"

definition mergeNodes :: "NodePtr list \<Rightarrow> LayoutTypeSystem \<Rightarrow> error + LayoutTypeSystem" where
  "mergeNodes ToMerge s =
     (if \<not> 1 < length ToMerge then Inl AssertionFailure
      else
        let Into = hd ToMerge in
        if Into \<notin> Layouts s then Inl UndefinedBehaviour
        else mergeLoop Into (ID (Heap s Into)) (tl ToMerge) s)"

text \<open>
  \<^verbatim>\<open>removeNode\<close>; the two loops erase the range of entries whose first component is the
  node. A node that is not live, or a neighbour of it that is not, is read through a
  dangling pointer.
\<close>

definition removeNode :: "NodePtr \<Rightarrow> LayoutTypeSystem \<Rightarrow> error + LayoutTypeSystem" where
  "removeNode ToRemove s =
     (if ToRemove \<notin> Layouts s then Inl UndefinedBehaviour
      else if \<not> fst ` Successors (Heap s ToRemove) \<union> fst ` Predecessors (Heap s ToRemove)
                   \<subseteq> Layouts s
      then Inl UndefinedBehaviour
      else
        case remove (ID (Heap s ToRemove)) (EqClasses s) of
          Inl e \<Rightarrow> Inl e
        | Inr ec \<Rightarrow>
            let h = Heap s;
                h1 = (\<lambda>a. if a \<in> fst ` Successors (h ToRemove)
                           then (h a)\<lparr>Predecessors := {l \<in> Predecessors (h a). fst l \<noteq> ToRemove}\<rparr>
                           else h a);
                h2 = (\<lambda>a. if a \<in> fst ` Predecessors (h1 ToRemove)
                           then (h1 a)\<lparr>Successors := {l \<in> Successors (h1 a). fst l \<noteq> ToRemove}\<rparr>
                           else h1 a)
            in Inr (s\<lparr>Heap := h2, Layouts := Layouts s - {ToRemove}, EqClasses := ec\<rparr>))"

text \<open>
  \<^verbatim>\<open>moveEdge\<close>. The iterator \<^verbatim>\<open>EdgeIt\<close> into \<^verbatim>\<open>OldSrc->Successors\<close> is the link it
  points to, also where the code reads \<^verbatim>\<open>EdgeIt->first\<close> and \<^verbatim>\<open>EdgeIt->second\<close> after
  the extraction, as long as the extracted set node exists. An iterator that does not
  point into that set is undefined behaviour, and so is a node that is not live where the
  code reads or writes its fields; where \<^verbatim>\<open>addLink\<close> is reached first, its assertions on
  \<^verbatim>\<open>Layouts\<close> catch such a node.

  In \<^verbatim>\<open>moveEdgeWithoutSumming\<close> the extracted node handle is moved into
  \<^verbatim>\<open>NewSrc->Successors.insert\<close>. When \<^verbatim>\<open>NewSrc->Successors\<close> holds an equal link
  already, the insertion fails, the handle comes back in the result of \<^verbatim>\<open>insert\<close>, which
  the code drops, and the set node is destroyed: the reads of \<^verbatim>\<open>EdgeIt->first\<close> and
  \<^verbatim>\<open>EdgeIt->second\<close> that follow are reads of freed storage.
\<close>

definition moveEdgeWithoutSumming ::
  "NodePtr \<Rightarrow> NodePtr \<Rightarrow> Link \<Rightarrow> LayoutTypeSystem \<Rightarrow> error + LayoutTypeSystem" where
  "moveEdgeWithoutSumming OldSrc NewSrc EdgeIt s =
     (if OldSrc \<notin> Layouts s \<or> NewSrc \<notin> Layouts s \<or> EdgeIt \<notin> Successors (Heap s OldSrc)
           \<or> fst EdgeIt \<notin> Layouts s
      then Inl UndefinedBehaviour
      else
        let h = Heap s;
            h1 = h(OldSrc := (h OldSrc)\<lparr>Successors := Successors (h OldSrc) - {EdgeIt}\<rparr>)
        in if EdgeIt \<in> Successors (h1 NewSrc) then Inl UndefinedBehaviour
           else
             let h2 = h1(NewSrc := (h1 NewSrc)\<lparr>Successors := insert EdgeIt (Successors (h1 NewSrc))\<rparr>);
                 Tgt = fst EdgeIt
             in if (OldSrc, snd EdgeIt) \<notin> Predecessors (h2 Tgt) then Inl AssertionFailure
                else
                  let h3 = h2(Tgt := (h2 Tgt)\<lparr>Predecessors := Predecessors (h2 Tgt) - {(OldSrc, snd EdgeIt)}\<rparr>);
                      h4 = h3(Tgt := (h3 Tgt)\<lparr>Predecessors := insert (NewSrc, snd EdgeIt) (Predecessors (h3 Tgt))\<rparr>)
                  in Inr (s\<lparr>Heap := h4\<rparr>))"

definition moveEdge ::
  "NodePtr option \<Rightarrow> NodePtr option \<Rightarrow> Link \<Rightarrow> 64 word \<Rightarrow> LayoutTypeSystem
     \<Rightarrow> error + LayoutTypeSystem" where
  "moveEdge OldSrc NewSrc EdgeIt OffsetToSum s =
     (case (OldSrc, NewSrc) of
        (Some old, Some new) \<Rightarrow>
          if OffsetToSum = 0 then moveEdgeWithoutSumming old new EdgeIt s
          else if old \<notin> Layouts s \<or> EdgeIt \<notin> Successors (Heap s old)
          then Inl UndefinedBehaviour
          else
            let Tgt = fst EdgeIt;
                EdgeTag = snd EdgeIt;
                h = Heap s;
                s1 = s\<lparr>Heap := h(old := (h old)\<lparr>Successors := Successors (h old) - {EdgeIt}\<rparr>)\<rparr>;
                added =
                  (case Kind EdgeTag of
                     LK_Inheritance \<Rightarrow>
                       if 0 < sint OffsetToSum
                       then addInstanceLink (Some new) (Some Tgt) (OffsetExpressionOf OffsetToSum) s1
                       else addInheritanceLink (Some new) (Some Tgt) s1
                   | LK_Instance \<Rightarrow>
                       let NewOE = (OE EdgeTag)\<lparr>Offset := Offset (OE EdgeTag) + OffsetToSum\<rparr> in
                       if \<not> 0 \<le> sint (Offset NewOE) then Inl AssertionFailure
                       else addInstanceLink (Some new) (Some Tgt) NewOE s1
                   | _ \<Rightarrow> Inl Unreachable)
            in case added of
                 Inl e \<Rightarrow> Inl e
               | Inr (r, s2) \<Rightarrow>
                   if Tgt \<notin> Layouts s2 then Inl UndefinedBehaviour
                   else
                     let h2 = Heap s2
                     in Inr (s2\<lparr>Heap := h2(Tgt := (h2 Tgt)
                               \<lparr>Predecessors := Predecessors (h2 Tgt) - {(old, EdgeTag)}\<rparr>)\<rparr>)
      | _ \<Rightarrow> Inr s)"

section \<open>Edge predicates and the leaf check\<close>

definition hasNonPointerLinkKind :: "LinkKind \<Rightarrow> Link \<Rightarrow> bool" where
  "hasNonPointerLinkKind K L =
     (if K = LK_All then Kind (snd L) \<noteq> LK_Pointer else Kind (snd L) = K)"

text \<open>
  \<^verbatim>\<open>isLeaf<K>\<close>: the range of the children seen through the filter
  \<^verbatim>\<open>hasNonPointerLinkKind<K>\<close> is empty. \<^verbatim>\<open>verifyLeafs\<close> uses the default \<^verbatim>\<open>K = LK_All\<close>.
\<close>

definition isLeaf :: "LinkKind \<Rightarrow> LayoutTypeSystemNode \<Rightarrow> bool" where
  "isLeaf K N = (Set.filter (hasNonPointerLinkKind K) (Successors N) = {})"

text \<open>
  \<^verbatim>\<open>verifyLeafs\<close>; \<open>strict\<close> says whether the logger \<^verbatim>\<open>dla-verify-strict\<close> is enabled,
  in which case a failure is a failed \<^verbatim>\<open>revng_check\<close>.
\<close>

definition verifyLeafs :: "bool \<Rightarrow> LayoutTypeSystem \<Rightarrow> error + bool" where
  "verifyLeafs strict s =
     (if \<exists>Node \<in> Layouts s. isLeaf LK_All (Heap s Node) \<and> Size (Heap s Node) = 0
      then (if strict then Inl CheckFailure else Inr False)
      else Inr True)"

section \<open>Sequences of calls\<close>

text \<open>
  The calls a client can make: the public members of \<^verbatim>\<open>LayoutTypeSystem\<close>, a write to
  the public field \<^verbatim>\<open>Size\<close> of a live node, and \<^verbatim>\<open>compress\<close> on the classes that
  \<^verbatim>\<open>getEqClasses\<close> hands out.
\<close>

datatype call =
  CreateNode
  | AddEqualityLink "NodePtr option" "NodePtr option"
  | AddInheritanceLink "NodePtr option" "NodePtr option"
  | AddInstanceLink "NodePtr option" "NodePtr option" OffsetExpression
  | AddPointerLink "NodePtr option" "NodePtr option"
  | MergeNodes "NodePtr list"
  | RemoveNode NodePtr
  | MoveEdge "NodePtr option" "NodePtr option" Link "64 word"
  | SetSize NodePtr "64 word"
  | Compress

definition dropResult :: "error + ('a \<times> LayoutTypeSystem) \<Rightarrow> error + LayoutTypeSystem" where
  "dropResult r = (case r of Inl e \<Rightarrow> Inl e | Inr (x, s) \<Rightarrow> Inr s)"

fun perform :: "call \<Rightarrow> LayoutTypeSystem \<Rightarrow> error + LayoutTypeSystem" where
  "perform CreateNode s = dropResult (createArtificialLayoutType s)"
| "perform (AddEqualityLink Src Tgt) s = dropResult (addEqualityLink Src Tgt s)"
| "perform (AddInheritanceLink Src Tgt) s = dropResult (addInheritanceLink Src Tgt s)"
| "perform (AddInstanceLink Src Tgt oe) s = dropResult (addInstanceLink Src Tgt oe s)"
| "perform (AddPointerLink Src Tgt) s = dropResult (addPointerLink Src Tgt s)"
| "perform (MergeNodes ToMerge) s = mergeNodes ToMerge s"
| "perform (RemoveNode N) s = removeNode N s"
| "perform (MoveEdge OldSrc NewSrc EdgeIt OffsetToSum) s = moveEdge OldSrc NewSrc EdgeIt OffsetToSum s"
| "perform (SetSize N v) s =
     (if N \<notin> Layouts s then Inl UndefinedBehaviour
      else Inr (s\<lparr>Heap := (Heap s)(N := (Heap s N)\<lparr>Size := v\<rparr>)\<rparr>))"
| "perform Compress s = Inr (s\<lparr>EqClasses := compress (EqClasses s)\<rparr>)"

fun run :: "call list \<Rightarrow> LayoutTypeSystem \<Rightarrow> error + LayoutTypeSystem" where
  "run [] s = Inr s"
| "run (c # cs) s = (case perform c s of Inl e \<Rightarrow> Inl e | Inr s' \<Rightarrow> run cs s')"


text \<open>The error a call ended with, if it did not return.\<close>

definition outcome :: "error + 'a \<Rightarrow> error option" where
  "outcome r = (case r of Inl e \<Rightarrow> Some e | Inr x \<Rightarrow> None)"

section \<open>Invariants\<close>

text \<open>
  The mirror test of \<^verbatim>\<open>verifyConsistency\<close> (its two loops under "Check that predecessors
  and successors are consistent"): every predecessor entry of a live node is matched by a
  successor entry of the neighbour with the same tag, and the other way round.
\<close>

definition adjacencyMirrored :: "LayoutTypeSystem \<Rightarrow> bool" where
  "adjacencyMirrored s =
     (\<forall>NodePtr \<in> Layouts s.
        (\<forall>P \<in> Predecessors (Heap s NodePtr). (NodePtr, snd P) \<in> Successors (Heap s (fst P)))
        \<and> (\<forall>P \<in> Successors (Heap s NodePtr). (NodePtr, snd P) \<in> Predecessors (Heap s (fst P))))"

text \<open>
  What the equivalence classes satisfy in every state the calls lead to: the leader of an
  identifier is not above it, there is one entry per identifier handed out, and the
  identifier of every live node has an entry.
\<close>

definition leadersBelow :: "VectEqClasses \<Rightarrow> bool" where
  "leadersBelow c = (\<forall>i < length (EC c). EC c ! i \<le> i)"

definition classesConsistent :: "LayoutTypeSystem \<Rightarrow> bool" where
  "classesConsistent s =
     (length (EC (EqClasses s)) = NID s \<and> NElems (EqClasses s) = NID s
      \<and> leadersBelow (EqClasses s)
      \<and> (\<forall>n \<in> Layouts s. ID (Heap s n) < NID s))"

section \<open>Auxiliary facts\<close>

lemma sum_case_weaken:
  assumes "case r of Inl e \<Rightarrow> False | Inr s \<Rightarrow> P s" and "\<And>s. P s \<Longrightarrow> Q s"
  shows "case r of Inl e \<Rightarrow> False | Inr s \<Rightarrow> Q s"
  using assms by (cases r) auto

lemma outcome_None_iff: "outcome r = None \<longleftrightarrow> (\<exists>x. r = Inr x)"
  by (cases r) (simp_all add: outcome_def)

lemma fixPredSucc_Size:
  "fixPredSucc From Into h = Inr h' \<Longrightarrow> Size (h' a) = Size (h a)"
  by (auto simp: fixPredSucc_def Let_def split: if_splits)

lemma mergeNodes_first_step:
  "Into \<in> Layouts s \<Longrightarrow>
   mergeNodes (Into # From # rest) s =
     (case mergeOne Into (ID (Heap s Into)) From s of
        Inl e \<Rightarrow> Inl e
      | Inr s1 \<Rightarrow> mergeLoop Into (ID (Heap s Into)) rest s1)"
  by (simp add: mergeNodes_def)






subsection \<open>Equivalence classes and what the calls keep\<close>

lemma compressStep_fields:
  "RemovedID (compressStep i c) = RemovedID c" "NElems (compressStep i c) = NElems c"
  "length (EC (compressStep i c)) = length (EC c)"
  by (simp_all add: compressStep_def)

lemma fold_compressStep_fields:
  "RemovedID (fold compressStep is c) = RemovedID c"
  "NElems (fold compressStep is c) = NElems c"
  "length (EC (fold compressStep is c)) = length (EC c)"
  by (induction "is" arbitrary: c) (simp_all add: compressStep_fields)

lemma compress_fields:
  "RemovedID (compress c) = RemovedID c" "NElems (compress c) = NElems c"
  "length (EC (compress c)) = length (EC c)"
  by (simp_all add: compress_def fold_compressStep_fields)

lemma compress_prefix:
  assumes "leadersBelow c" and "k \<le> length (EC c)"
  shows "(\<forall>i < k. EC (fold compressStep [0..<k] c) ! i
                    = EC (fold compressStep [0..<k] c) ! (EC c ! i))
       \<and> (\<forall>i. k \<le> i \<longrightarrow> EC (fold compressStep [0..<k] c) ! i = EC c ! i)"
  using assms(2)
proof (induction k)
  case 0
  then show ?case by simp
next
  case (Suc k)
  let ?ck = "fold compressStep [0..<k] c"
  have k: "k < length (EC c)" using Suc.prems by simp
  then have IH1: "\<And>i. i < k \<Longrightarrow> EC ?ck ! i = EC ?ck ! (EC c ! i)"
    and IH2: "\<And>i. k \<le> i \<Longrightarrow> EC ?ck ! i = EC c ! i"
    using Suc.IH by simp_all
  have len: "length (EC ?ck) = length (EC c)" by (simp add: fold_compressStep_fields)
  have le: "\<And>i. i < length (EC c) \<Longrightarrow> EC c ! i \<le> i"
    using assms(1) by (simp add: leadersBelow_def)
  have step: "fold compressStep [0..<Suc k] c = compressStep k ?ck" by simp
  have kk: "EC ?ck ! k = EC c ! k" using IH2 by simp
  show ?case
  proof (cases "EC c ! k = k")
    case True
    then have ec: "EC (compressStep k ?ck) = (EC ?ck)[k := NumClasses ?ck]"
      using kk by (simp add: compressStep_def)
    have "EC (compressStep k ?ck) ! i = EC (compressStep k ?ck) ! (EC c ! i)" if "i < Suc k" for i
    proof (cases "i = k")
      case True
      with \<open>EC c ! k = k\<close> show ?thesis by simp
    next
      case False
      with that have ik: "i < k" by simp
      then have "EC c ! i \<le> i" using le k by simp
      with ik have "EC c ! i \<noteq> k" by simp
      with ik IH1[OF ik] show ?thesis by (simp add: ec)
    qed
    moreover have "EC (compressStep k ?ck) ! i = EC c ! i" if "Suc k \<le> i" for i
      using that IH2[of i] by (simp add: ec)
    ultimately show ?thesis unfolding step by blast
  next
    case False
    then have lk: "EC c ! k < k" using le[OF k] by simp
    have ec: "EC (compressStep k ?ck) = (EC ?ck)[k := EC ?ck ! (EC c ! k)]"
      using False kk by (simp add: compressStep_def)
    have "EC (compressStep k ?ck) ! i = EC (compressStep k ?ck) ! (EC c ! i)" if "i < Suc k" for i
    proof (cases "i = k")
      case True
      with lk k len show ?thesis by (simp add: ec)
    next
      case False
      with that have ik: "i < k" by simp
      then have "EC c ! i \<le> i" using le k by simp
      with ik have "EC c ! i \<noteq> k" by simp
      with ik IH1[OF ik] show ?thesis by (simp add: ec)
    qed
    moreover have "EC (compressStep k ?ck) ! i = EC c ! i" if "Suc k \<le> i" for i
      using that IH2[of i] by (simp add: ec)
    ultimately show ?thesis unfolding step by blast
  qed
qed

lemma compress_same_class:
  assumes "leadersBelow c" and "a < length (EC c)" and "b < length (EC c)"
    and "EC c ! a = EC c ! b"
  shows "EC (compress c) ! a = EC (compress c) ! b"
proof (cases "NumClasses c = 0")
  case True
  from compress_prefix[OF assms(1), of "length (EC c)"] assms(2,3)
  have "EC (compress c) ! a = EC (compress c) ! (EC c ! a)"
    and "EC (compress c) ! b = EC (compress c) ! (EC c ! b)"
    using True by (simp_all add: compress_def)
  with assms(4) show ?thesis by simp
next
  case False
  with assms(4) show ?thesis by (simp add: compress_def)
qed

lemma join_result:
  assumes "join a b c = Inr c'"
  shows "a < length (EC c)" "b < length (EC c)" "length (EC c') = length (EC c)"
    "RemovedID c' = RemovedID c" "NumClasses c' = NumClasses c" "NElems c' = NElems c"
    "EC c' ! a = EC c' ! b"
    "leadersBelow c \<Longrightarrow> leadersBelow c'"
  using assms
  by (auto simp: join_def Let_def leadersBelow_def min_def split: if_splits)

lemma remove_result:
  assumes "remove A c = Inr c'" and "A < length (EC c)"
  shows "\<exists>r. RemovedID c' = Some r \<and> r < length (EC c') \<and> EC c' ! A = EC c' ! r"
    "length (EC c') = length (EC c)" "leadersBelow c \<Longrightarrow> leadersBelow c'"
    "RemovedID c \<noteq> None \<Longrightarrow> RemovedID c' = RemovedID c"
proof -
  show "\<exists>r. RemovedID c' = Some r \<and> r < length (EC c') \<and> EC c' ! A = EC c' ! r"
  proof (cases "RemovedID c")
    case None
    with assms show ?thesis by (auto simp: remove_def)
  next
    case (Some r)
    with assms(1) have j: "join A r c = Inr c'" by (simp add: remove_def)
    from join_result(2,3,4,7)[OF j] Some show ?thesis by simp
  qed
  show "length (EC c') = length (EC c)"
    using assms(1) join_result(3) by (auto simp: remove_def split: option.splits)
  show "leadersBelow c'" if "leadersBelow c"
    using assms(1) that join_result(8) by (auto simp: remove_def leadersBelow_def split: option.splits)
  show "RemovedID c' = RemovedID c" if "RemovedID c \<noteq> None"
    using assms(1) that join_result(4) by (auto simp: remove_def split: option.splits)
qed


lemma compress_below:
  assumes "leadersBelow c" and "NumClasses c = 0" and "k \<le> length (EC c)"
  shows "NumClasses (fold compressStep [0..<k] c) \<le> k
       \<and> leadersBelow (fold compressStep [0..<k] c)"
  using assms(3)
proof (induction k)
  case 0
  then show ?case using assms(1,2) by simp
next
  case (Suc k)
  define ck where "ck = fold compressStep [0..<k] c"
  have k: "k < length (EC c)" using Suc.prems by simp
  have len: "length (EC ck) = length (EC c)" by (simp add: ck_def fold_compressStep_fields)
  from Suc.IH k have nc: "NumClasses ck \<le> k" and lb: "leadersBelow ck" by (simp_all add: ck_def)
  have kk: "EC ck ! k = EC c ! k"
    using compress_prefix[OF assms(1), of k] k by (simp add: ck_def)
  have le: "\<forall>i < length (EC c). EC ck ! i \<le> i"
    using lb len by (simp add: leadersBelow_def)
  have ck: "EC c ! k \<le> k" using assms(1) k by (simp add: leadersBelow_def)
  have step: "fold compressStep [0..<Suc k] c = compressStep k ck" by (simp add: ck_def)
  have "NumClasses (compressStep k ck) \<le> Suc k \<and> leadersBelow (compressStep k ck)"
  proof (cases "EC c ! k = k")
    case True
    with kk nc le len k show ?thesis
      by (auto simp: compressStep_def leadersBelow_def nth_list_update)
  next
    case False
    with ck have lk: "EC c ! k < k" by simp
    with k have "EC ck ! (EC c ! k) \<le> EC c ! k" using le by simp
    with lk have "EC ck ! (EC c ! k) \<le> k" by simp
    with False kk nc le len k show ?thesis
      by (auto simp: compressStep_def leadersBelow_def nth_list_update)
  qed
  then show ?case unfolding step .
qed

lemma compress_leadersBelow: "leadersBelow c \<Longrightarrow> leadersBelow (compress c)"
  using compress_below[of c "length (EC c)"] by (simp add: compress_def)

lemma grow_result:
  assumes "grow N c = Inr c'"
  shows "EC c' = EC c @ [length (EC c)..<N]" "RemovedID c' = RemovedID c" "NElems c' = NElems c"
    "NumClasses c' = NumClasses c"
  using assms by (auto simp: grow_def split: if_splits)

lemma growBy1_result:
  assumes "growBy1 c = Inr c'"
  shows "EC c' = EC c @ [length (EC c)..<NElems c + 1]" "RemovedID c' = RemovedID c"
    "NElems c' = NElems c + 1"
  using grow_result[of "NElems c + 1" "c\<lparr>NElems := NElems c + 1\<rparr>" c'] assms
  by (simp_all add: growBy1_def)

lemma growBy1_leadersBelow:
  assumes "growBy1 c = Inr c'" and "leadersBelow c" and "length (EC c) = NElems c"
  shows "leadersBelow c'" "length (EC c') = NElems c'"
  using growBy1_result[OF assms(1)] assms(2,3)
  by (auto simp: leadersBelow_def nth_append)

lemma addLink_frame:
  assumes "addLink Src Tgt Tag s = Inr (r, s')"
  shows "EqClasses s' = EqClasses s" "NID s' = NID s" "Layouts s' = Layouts s"
    "ID (Heap s' m) = ID (Heap s m)"
  using assms
  by (auto simp: addLink_def Let_def split: option.splits if_splits)

lemma addEqualityLink_frame:
  assumes "addEqualityLink Src Tgt s = Inr (r, s')"
  shows "EqClasses s' = EqClasses s" "NID s' = NID s" "Layouts s' = Layouts s"
    "ID (Heap s' m) = ID (Heap s m)"
proof -
  from assms obtain r1 s1 r2 where
    1: "addLink Src Tgt equalityTag s = Inr (r1, s1)" and 2: "addLink Tgt Src equalityTag s1 = Inr (r2, s')"
    by (auto simp: addEqualityLink_def split: sum.splits if_splits)
  show "EqClasses s' = EqClasses s" "NID s' = NID s" "Layouts s' = Layouts s"
    "ID (Heap s' m) = ID (Heap s m)"
    using addLink_frame[OF 1] addLink_frame[OF 2] by simp_all
qed

lemma fixPredSucc_ID:
  "fixPredSucc From Into h = Inr h' \<Longrightarrow> ID (h' a) = ID (h a)"
  by (auto simp: fixPredSucc_def Let_def split: if_splits)

lemma mergeOne_frame:
  assumes "mergeOne Into IntoID From s = Inr s'"
  shows "join IntoID (ID (Heap s From)) (EqClasses s) = Inr (EqClasses s')"
    "NID s' = NID s" "Layouts s' = Layouts s - {From}" "ID (Heap s' m) = ID (Heap s m)"
proof -
  from assms obtain ec h where ec: "join IntoID (ID (Heap s From)) (EqClasses s) = Inr ec"
    and h: "fixPredSucc From Into (Heap s) = Inr h"
    by (auto simp: mergeOne_def split: if_splits sum.splits)
  from assms ec h show "join IntoID (ID (Heap s From)) (EqClasses s) = Inr (EqClasses s')"
    "NID s' = NID s" "Layouts s' = Layouts s - {From}" "ID (Heap s' m) = ID (Heap s m)"
    using fixPredSucc_ID[OF h]
    by (auto simp: mergeOne_def Let_def split: if_splits)
qed

lemma moveEdgeWithoutSumming_frame:
  assumes "moveEdgeWithoutSumming old new e s = Inr s'"
  shows "EqClasses s' = EqClasses s" "NID s' = NID s" "Layouts s' = Layouts s"
    "ID (Heap s' m) = ID (Heap s m)"
  using assms
  by (auto simp: moveEdgeWithoutSumming_def Let_def split: if_splits)

lemma moveEdge_frame:
  assumes "moveEdge OldSrc NewSrc e d s = Inr s'"
  shows "EqClasses s' = EqClasses s" "NID s' = NID s" "Layouts s' = Layouts s"
    "ID (Heap s' m) = ID (Heap s m)"
proof -
  have "EqClasses s' = EqClasses s \<and> NID s' = NID s \<and> Layouts s' = Layouts s
        \<and> ID (Heap s' m) = ID (Heap s m)"
  proof (cases "\<exists>old new. OldSrc = Some old \<and> NewSrc = Some new")
    case False
    with assms show ?thesis by (auto simp: moveEdge_def split: option.splits)
  next
    case True
    then obtain old new where on: "OldSrc = Some old" "NewSrc = Some new" by blast
    show ?thesis
    proof (cases "d = 0")
      case True
      with assms on moveEdgeWithoutSumming_frame[of old new e s s'] show ?thesis
        by (simp add: moveEdge_def)
    next
      case False
      define s1 where "s1 = s\<lparr>Heap := (Heap s)(old := (Heap s old)\<lparr>Successors := Successors (Heap s old) - {e}\<rparr>)\<rparr>"
      from assms on False obtain Tag r s2 where
        a: "addLink (Some new) (Some (fst e)) Tag s1 = Inr (r, s2)"
        and s': "s' = s2\<lparr>Heap := (Heap s2)(fst e := (Heap s2 (fst e))
                             \<lparr>Predecessors := Predecessors (Heap s2 (fst e)) - {(old, snd e)}\<rparr>)\<rparr>"
        unfolding s1_def
        by (auto simp: moveEdge_def Let_def addInstanceLink_def addInheritanceLink_def
              split: if_splits sum.splits LinkKind.splits)
      show ?thesis
        by (simp add: s' addLink_frame[OF a]) (simp add: s1_def)
    qed
  qed
  then show "EqClasses s' = EqClasses s" "NID s' = NID s" "Layouts s' = Layouts s"
    "ID (Heap s' m) = ID (Heap s m)" by simp_all
qed

lemma removeNode_result:
  assumes "removeNode n s = Inr s'"
  shows "n \<in> Layouts s" "Layouts s' = Layouts s - {n}" "LinkTags s' = LinkTags s" "NID s' = NID s"
    "\<And>m. m \<noteq> n \<Longrightarrow> Successors (Heap s' m) =
        (if m \<in> fst ` Predecessors (Heap s n)
         then {l \<in> Successors (Heap s m). fst l \<noteq> n} else Successors (Heap s m))"
    "\<And>m. Predecessors (Heap s' m) =
        (if m \<in> fst ` Successors (Heap s n)
         then {l \<in> Predecessors (Heap s m). fst l \<noteq> n} else Predecessors (Heap s m))"
    "\<And>m. Size (Heap s' m) = Size (Heap s m)"
    "\<And>m. InterferingInfo (Heap s' m) = InterferingInfo (Heap s m)"
    "\<And>m. ID (Heap s' m) = ID (Heap s m)"
proof -
  define h1 where "h1 = (\<lambda>a. if a \<in> fst ` Successors (Heap s n)
                           then (Heap s a)\<lparr>Predecessors := {l \<in> Predecessors (Heap s a). fst l \<noteq> n}\<rparr>
                           else Heap s a)"
  define h2 where "h2 = (\<lambda>a. if a \<in> fst ` Predecessors (h1 n)
                           then (h1 a)\<lparr>Successors := {l \<in> Successors (h1 a). fst l \<noteq> n}\<rparr>
                           else h1 a)"
  from assms show live: "n \<in> Layouts s"
    by (simp add: removeNode_def split: if_splits)
  with assms obtain ec where s': "s' = s\<lparr>Heap := h2, Layouts := Layouts s - {n}, EqClasses := ec\<rparr>"
    unfolding h2_def h1_def by (auto simp: removeNode_def Let_def split: sum.splits if_splits)
  show "Layouts s' = Layouts s - {n}" "LinkTags s' = LinkTags s" "NID s' = NID s"
    by (simp_all add: s')
  have nb: "m \<in> fst ` Predecessors (h1 n) \<longleftrightarrow> m \<in> fst ` Predecessors (Heap s n)" if "m \<noteq> n" for m
    using that by (force simp: h1_def image_iff)
  show "Successors (Heap s' m) =
        (if m \<in> fst ` Predecessors (Heap s n)
         then {l \<in> Successors (Heap s m). fst l \<noteq> n} else Successors (Heap s m))" if "m \<noteq> n" for m
    using nb[OF that] by (simp add: s' h2_def) (simp add: h1_def)
  show "Predecessors (Heap s' m) =
        (if m \<in> fst ` Successors (Heap s n)
         then {l \<in> Predecessors (Heap s m). fst l \<noteq> n} else Predecessors (Heap s m))" for m
    by (simp add: s' h2_def h1_def)
  show "Size (Heap s' m) = Size (Heap s m)" for m
    by (simp add: s' h2_def h1_def)
  show "InterferingInfo (Heap s' m) = InterferingInfo (Heap s m)" for m
    by (simp add: s' h2_def h1_def)
  show "ID (Heap s' m) = ID (Heap s m)" for m
    by (simp add: s' h2_def h1_def)
qed


lemma remove_NElems: "remove A c = Inr c' \<Longrightarrow> NElems c' = NElems c"
  using join_result(6) by (auto simp: remove_def split: option.splits)

lemma isRemoved_True_iff:
  "isRemoved i c = Inr True \<longleftrightarrow>
     (\<exists>r. RemovedID c = Some r \<and> i < length (EC c) \<and> r < length (EC c) \<and> EC c ! i = EC c ! r)"
  by (auto simp: isRemoved_def findLeader_def lookupEqClass_def split: option.splits)

lemma join_keeps_removed:
  assumes "join a b c = Inr c'" and "isRemoved i c = Inr True"
  shows "isRemoved i c' = Inr True"
proof -
  from assms(1) have "EC c' = map (\<lambda>x. if x = EC c ! a \<or> x = EC c ! b
                                         then min (EC c ! a) (EC c ! b) else x) (EC c)"
    and "RemovedID c' = RemovedID c"
    by (auto simp: join_def Let_def split: if_splits)
  with assms(2) show ?thesis
    by (auto simp: isRemoved_True_iff)
qed

lemma remove_keeps_removed:
  assumes "remove A c = Inr c'" and "isRemoved i c = Inr True"
  shows "isRemoved i c' = Inr True"
proof -
  from assms(2) obtain r where "RemovedID c = Some r" by (auto simp: isRemoved_True_iff)
  with assms(1) have "join A r c = Inr c'" by (simp add: remove_def)
  from join_keeps_removed[OF this assms(2)] show ?thesis .
qed

lemma growBy1_keeps_removed:
  assumes "growBy1 c = Inr c'" and "isRemoved i c = Inr True"
  shows "isRemoved i c' = Inr True"
  using growBy1_result[OF assms(1)] assms(2)
  by (auto simp: isRemoved_True_iff nth_append)

lemma compress_keeps_removed:
  assumes "leadersBelow c" and "isRemoved i c = Inr True"
  shows "isRemoved i (compress c) = Inr True"
proof -
  from assms(2) obtain r where r: "RemovedID c = Some r" "i < length (EC c)" "r < length (EC c)"
    "EC c ! i = EC c ! r"
    by (auto simp: isRemoved_True_iff)
  from compress_same_class[OF assms(1) r(2,3,4)] r(1,2,3) show ?thesis
    by (simp add: isRemoved_True_iff compress_fields)
qed

lemma createArtificialLayoutType_result:
  assumes "createArtificialLayoutType s = Inr (a, s')"
  shows "growBy1 (EqClasses s) = Inr (EqClasses s')" "NID s' = NID s + 1"
    "Layouts s' = insert (NID s) (Layouts s)" "ID (Heap s' (NID s)) = NID s"
    "m \<noteq> NID s \<Longrightarrow> ID (Heap s' m) = ID (Heap s m)" "NID s \<notin> Layouts s"
  using assms
  by (auto simp: createArtificialLayoutType_def Let_def newNode_def split: sum.splits if_splits)

lemma mergeLoop_classes:
  assumes "mergeLoop Into IntoID Froms s = Inr s'"
  shows "(classesConsistent s \<longrightarrow> classesConsistent s')
       \<and> (isRemoved i (EqClasses s) = Inr True \<longrightarrow> isRemoved i (EqClasses s') = Inr True)
       \<and> (RemovedID (EqClasses s') = RemovedID (EqClasses s))"
  using assms
proof (induction Froms arbitrary: s)
  case Nil
  then show ?case by simp
next
  case (Cons From rest)
  then obtain s1 where 1: "mergeOne Into IntoID From s = Inr s1"
    and 2: "mergeLoop Into IntoID rest s1 = Inr s'"
    by (auto split: sum.splits)
  note f = mergeOne_frame[OF 1]
  note j = join_result[OF f(1)]
  have "classesConsistent s1" if "classesConsistent s"
    using that f(2,3,4) j(3,6,8) by (auto simp: classesConsistent_def)
  moreover have "isRemoved i (EqClasses s1) = Inr True" if "isRemoved i (EqClasses s) = Inr True"
    using join_keeps_removed[OF f(1) that] .
  moreover have "RemovedID (EqClasses s1) = RemovedID (EqClasses s)"
    using j(4) .
  ultimately show ?case using Cons.IH[OF 2] by simp
qed

lemma perform_classes:
  assumes "perform c s = Inr s'"
  shows "(classesConsistent s \<longrightarrow> classesConsistent s')
       \<and> (classesConsistent s \<and> isRemoved i (EqClasses s) = Inr True
             \<longrightarrow> isRemoved i (EqClasses s') = Inr True)
       \<and> (RemovedID (EqClasses s) \<noteq> None \<longrightarrow> RemovedID (EqClasses s') = RemovedID (EqClasses s))"
proof (cases c)
  case CreateNode
  with assms obtain a where a: "createArtificialLayoutType s = Inr (a, s')"
    by (auto simp: dropResult_def split: sum.splits)
  note r = createArtificialLayoutType_result[OF a]
  note g = growBy1_result[OF r(1)]
  have "classesConsistent s'" if cc: "classesConsistent s"
  proof -
    have "ID (Heap s' m) < NID s'" if "m \<in> Layouts s'" for m
    proof (cases "m = NID s")
      case True
      then show ?thesis using r(2,4) by simp
    next
      case False
      with that r(3) have "m \<in> Layouts s" by simp
      with cc have "ID (Heap s m) < NID s" by (simp add: classesConsistent_def)
      with r(5)[OF False] r(2) show ?thesis by simp
    qed
    moreover have "length (EC (EqClasses s')) = NID s'" "NElems (EqClasses s') = NID s'"
      "leadersBelow (EqClasses s')"
      using cc g growBy1_leadersBelow[OF r(1)] r(2) by (simp_all add: classesConsistent_def)
    ultimately show ?thesis by (simp add: classesConsistent_def)
  qed
  then show ?thesis
    using growBy1_keeps_removed[OF r(1)] g(2) by simp
next
  case (AddEqualityLink Src Tgt)
  with assms obtain r where "addEqualityLink Src Tgt s = Inr (r, s')"
    by (auto simp: dropResult_def split: sum.splits)
  from addEqualityLink_frame[OF this] show ?thesis
    by (simp add: classesConsistent_def)
next
  case (AddInheritanceLink Src Tgt)
  with assms obtain r where "addLink Src Tgt inheritanceTag s = Inr (r, s')"
    by (auto simp: dropResult_def addInheritanceLink_def split: sum.splits)
  from addLink_frame[OF this] show ?thesis
    by (simp add: classesConsistent_def)
next
  case (AddInstanceLink Src Tgt oe)
  with assms obtain r where "addLink Src Tgt (instanceTag oe) s = Inr (r, s')"
    by (auto simp: dropResult_def addInstanceLink_def split: sum.splits)
  from addLink_frame[OF this] show ?thesis
    by (simp add: classesConsistent_def)
next
  case (AddPointerLink Src Tgt)
  with assms obtain r where "addLink Src Tgt pointerTag s = Inr (r, s')"
    by (auto simp: dropResult_def addPointerLink_def split: sum.splits)
  from addLink_frame[OF this] show ?thesis
    by (simp add: classesConsistent_def)
next
  case (MergeNodes ToMerge)
  with assms have "mergeLoop (hd ToMerge) (ID (Heap s (hd ToMerge))) (tl ToMerge) s = Inr s'"
    by (auto simp: mergeNodes_def Let_def split: if_splits)
  from mergeLoop_classes[OF this, of i] show ?thesis by simp
next
  case (RemoveNode n)
  with assms have rm: "removeNode n s = Inr s'" by simp
  then obtain ec where ec: "remove (ID (Heap s n)) (EqClasses s) = Inr ec" and "EqClasses s' = ec"
    by (auto simp: removeNode_def Let_def split: if_splits sum.splits)
  then have e: "remove (ID (Heap s n)) (EqClasses s) = Inr (EqClasses s')" by simp
  note r = removeNode_result[OF rm]
  have ne: "NElems (EqClasses s') = NElems (EqClasses s)"
    using remove_NElems[OF e] .
  have "classesConsistent s'" if cc: "classesConsistent s"
  proof -
    from cc r(1) have "ID (Heap s n) < length (EC (EqClasses s))"
      by (simp add: classesConsistent_def)
    from remove_result(2,3)[OF e this] cc r(2,4,9) ne show ?thesis
      by (auto simp: classesConsistent_def)
  qed
  moreover have "RemovedID (EqClasses s') = RemovedID (EqClasses s)" if "RemovedID (EqClasses s) \<noteq> None"
    using e that join_result(4) by (auto simp: remove_def split: option.splits)
  ultimately show ?thesis
    using remove_keeps_removed[OF e] by simp
next
  case (MoveEdge OldSrc NewSrc EdgeIt OffsetToSum)
  with assms have "moveEdge OldSrc NewSrc EdgeIt OffsetToSum s = Inr s'" by simp
  from moveEdge_frame[OF this] show ?thesis
    by (simp add: classesConsistent_def)
next
  case (SetSize n v)
  with assms show ?thesis
    by (auto simp: classesConsistent_def split: if_splits)
next
  case Compress
  with assms have s': "s' = s\<lparr>EqClasses := compress (EqClasses s)\<rparr>" by simp
  show ?thesis
    using compress_keeps_removed[of "EqClasses s" i] compress_leadersBelow[of "EqClasses s"]
    by (auto simp: s' classesConsistent_def compress_fields)
qed

lemma run_classes:
  assumes "run cs s = Inr s'"
  shows "(classesConsistent s \<longrightarrow> classesConsistent s')
       \<and> (classesConsistent s \<and> isRemoved i (EqClasses s) = Inr True
             \<longrightarrow> isRemoved i (EqClasses s') = Inr True)
       \<and> (RemovedID (EqClasses s) \<noteq> None \<longrightarrow> RemovedID (EqClasses s') = RemovedID (EqClasses s))"
  using assms
proof (induction cs arbitrary: s)
  case Nil
  then show ?case by simp
next
  case (Cons c cs)
  then obtain s1 where 1: "perform c s = Inr s1" and 2: "run cs s1 = Inr s'"
    by (auto split: sum.splits)
  from perform_classes[OF 1, of i] Cons.IH[OF 2] show ?case
    by auto
qed

lemma emptyTypeSystem_classes: "classesConsistent emptyTypeSystem"
  by (simp add: classesConsistent_def emptyTypeSystem_def leadersBelow_def)

section \<open>Sizes across a merge\<close>

text \<open>
  Claim C1, as stated, has \<^verbatim>\<open>mergeNodes\<close> assert that the previous \<^verbatim>\<open>Into.Size\<close> is zero
  or no greater than \<^verbatim>\<open>From.Size\<close>. With \<^verbatim>\<open>Into.Size\<close> 8 and \<^verbatim>\<open>From.Size\<close> 4 that
  condition is false, and the merge step returns all the same.
\<close>

theorem mergeOne_claimed_assertion_counterexample:
  "(case run [CreateNode, CreateNode, SetSize 0 8, SetSize 1 4] emptyTypeSystem of
      Inl e \<Rightarrow> False
    | Inr s \<Rightarrow>
        outcome (mergeOne 0 (ID (Heap s 0)) 1 s) = None
        \<and> \<not> (Size (Heap s 0) = 0 \<or> Size (Heap s 0) \<le> Size (Heap s 1)))"
  by code_simp

text \<open>
  Claim C1, amended: a merge step of a live \<^verbatim>\<open>From\<close> other than \<^verbatim>\<open>Into\<close> (with live
  neighbours, and identifiers that the equivalence classes can join) asserts that the previous \<^verbatim>\<open>Into.Size\<close>
  is zero or no less than \<^verbatim>\<open>From.Size\<close>: when that holds the step returns and
  \<^verbatim>\<open>Into.Size\<close> is the maximum of the two sizes, otherwise the step ends in the failed
  assertion.
\<close>

theorem mergeOne_size_assertion:
  assumes "From \<noteq> Into" and "From \<in> Layouts s"
    and "fst ` Successors (Heap s From) \<union> fst ` Predecessors (Heap s From) \<subseteq> Layouts s"
    and "outcome (join IntoID (ID (Heap s From)) (EqClasses s)) = None"
  shows "if Size (Heap s Into) = 0 \<or> Size (Heap s From) \<le> Size (Heap s Into)
         then \<exists>s'. mergeOne Into IntoID From s = Inr s'
                \<and> Size (Heap s' Into) = max (Size (Heap s Into)) (Size (Heap s From))
         else mergeOne Into IntoID From s = Inl AssertionFailure"
proof -
  from assms(4) obtain ec where ec: "join IntoID (ID (Heap s From)) (EqClasses s) = Inr ec"
    by (auto simp: outcome_None_iff)
  obtain h where h: "fixPredSucc From Into (Heap s) = Inr h"
    using assms(1) by (simp add: fixPredSucc_def Let_def)
  have sz: "Size (h Into) = Size (Heap s Into)" "Size (h From) = Size (Heap s From)"
    using fixPredSucc_Size[OF h] by simp_all
  show ?thesis
    using assms(1,2,3) ec h sz by (simp add: mergeOne_def Let_def)
qed

theorem mergeOne_size_assertion_witness:
  "(case run [CreateNode, CreateNode, CreateNode, SetSize 0 8, SetSize 1 4,
              AddInstanceLink (Some 0) (Some 2) (OffsetExpressionOf 0),
              AddInstanceLink (Some 1) (Some 2) (OffsetExpressionOf 0)] emptyTypeSystem of
      Inl e \<Rightarrow> False
    | Inr s \<Rightarrow>
        (\<exists>s'. mergeOne 0 (ID (Heap s 0)) 1 s = Inr s' \<and> Size (Heap s' 0) = 8)
        \<and> mergeOne 1 (ID (Heap s 1)) 0 s = Inl AssertionFailure)"
proof -
  have "case run [CreateNode, CreateNode, CreateNode, SetSize 0 8, SetSize 1 4,
              AddInstanceLink (Some 0) (Some 2) (OffsetExpressionOf 0),
              AddInstanceLink (Some 1) (Some 2) (OffsetExpressionOf 0)] emptyTypeSystem of
      Inl e \<Rightarrow> False
    | Inr s \<Rightarrow>
        0 \<in> Layouts s \<and> 1 \<in> Layouts s
        \<and> fst ` Successors (Heap s 0) \<union> fst ` Predecessors (Heap s 0) \<subseteq> Layouts s
        \<and> fst ` Successors (Heap s 1) \<union> fst ` Predecessors (Heap s 1) \<subseteq> Layouts s
        \<and> outcome (join (ID (Heap s 0)) (ID (Heap s 1)) (EqClasses s)) = None
        \<and> outcome (join (ID (Heap s 1)) (ID (Heap s 0)) (EqClasses s)) = None
        \<and> Size (Heap s 0) = 8 \<and> Size (Heap s 1) = 4"
    by code_simp
  then show ?thesis
  proof (rule sum_case_weaken)
    fix s :: LayoutTypeSystem
    assume "0 \<in> Layouts s \<and> 1 \<in> Layouts s
        \<and> fst ` Successors (Heap s 0) \<union> fst ` Predecessors (Heap s 0) \<subseteq> Layouts s
        \<and> fst ` Successors (Heap s 1) \<union> fst ` Predecessors (Heap s 1) \<subseteq> Layouts s
        \<and> outcome (join (ID (Heap s 0)) (ID (Heap s 1)) (EqClasses s)) = None
        \<and> outcome (join (ID (Heap s 1)) (ID (Heap s 0)) (EqClasses s)) = None
        \<and> Size (Heap s 0) = 8 \<and> Size (Heap s 1) = 4"
    then show "(\<exists>s'. mergeOne 0 (ID (Heap s 0)) 1 s = Inr s' \<and> Size (Heap s' 0) = 8)
        \<and> mergeOne 1 (ID (Heap s 1)) 0 s = Inl AssertionFailure"
      using mergeOne_size_assertion[of 1 0 s "ID (Heap s 0)"]
        mergeOne_size_assertion[of 0 1 s "ID (Heap s 1)"]
      by simp
  qed
qed

section \<open>The merge scenario\<close>

text \<open>
  Claim C2, as stated: nodes A, B, C are created (addresses and identifiers 0, 1, 2), A
  gets \<^verbatim>\<open>Size\<close> 4 and B \<^verbatim>\<open>Size\<close> 8, both get an Instance link at offset 0 to C, and
  \<^verbatim>\<open>mergeNodes([A, B])\<close> is called. The call does not return: \<^verbatim>\<open>Into\<close> is A, whose size
  4 is neither zero nor at least the size 8 of \<^verbatim>\<open>From\<close>, so the assertion
  \<^verbatim>\<open>not Into->Size or From->Size <= Into->Size\<close> fails.
\<close>

theorem merge_scenario_as_stated_aborts:
  "outcome (run [CreateNode, CreateNode, CreateNode, SetSize 0 4, SetSize 1 8,
                 AddInstanceLink (Some 0) (Some 2) (OffsetExpressionOf 0),
                 AddInstanceLink (Some 1) (Some 2) (OffsetExpressionOf 0),
                 MergeNodes [0, 1]] emptyTypeSystem) = Some AssertionFailure"
  by code_simp

text \<open>
  Claim C2, amended: with the larger node first, \<^verbatim>\<open>mergeNodes([B, A])\<close> returns; the
  live nodes are B and C, B has \<^verbatim>\<open>Size\<close> 8, the only successor link of B is the Instance
  link at offset 0 to C (the two links of A and B have collapsed into one), and the only
  predecessor link of C is the one from B.
\<close>

theorem merge_scenario_larger_first:
  "(case run [CreateNode, CreateNode, CreateNode, SetSize 0 4, SetSize 1 8,
              AddInstanceLink (Some 0) (Some 2) (OffsetExpressionOf 0),
              AddInstanceLink (Some 1) (Some 2) (OffsetExpressionOf 0),
              MergeNodes [1, 0]] emptyTypeSystem of
      Inl e \<Rightarrow> False
    | Inr s \<Rightarrow>
        Layouts s = {1, 2} \<and> Size (Heap s 1) = 8
        \<and> Successors (Heap s 1) = {(2, instanceTag (OffsetExpressionOf 0))}
        \<and> Predecessors (Heap s 2) = {(1, instanceTag (OffsetExpressionOf 0))})"
  by code_simp

section \<open>Edge rehoming and the adjacency invariants\<close>

text \<open>
  Claim C3 (adjacency is mirrored in every state the mutation operations can reach)
  fails on the code for \<^verbatim>\<open>moveEdge\<close> with a nonzero, non-positive offset, an Inheritance
  edge and \<^verbatim>\<open>OldSrc == NewSrc\<close>. Nodes A and B are created (addresses 0 and 1), A
  inherits from B, and \<^verbatim>\<open>moveEdge(A, A, A->B, -1)\<close> is called: the edge is taken out of
  A's successors, \<^verbatim>\<open>addInheritanceLink(A, B)\<close> puts it back and finds the entry for A
  among B's predecessors already there, and the final \<^verbatim>\<open>extract\<close> then removes that
  entry. Both nodes are live, A still has B as a successor, B no longer has A as a
  predecessor.
\<close>

theorem moveEdge_same_source_breaks_mirroring:
  "(case run [CreateNode, CreateNode, AddInheritanceLink (Some 0) (Some 1),
              MoveEdge (Some 0) (Some 0) (1, inheritanceTag) (- 1)] emptyTypeSystem of
      Inl e \<Rightarrow> False
    | Inr s \<Rightarrow>
        Layouts s = {0, 1}
        \<and> (1, inheritanceTag) \<in> Successors (Heap s 0)
        \<and> (0, inheritanceTag) \<notin> Predecessors (Heap s 1))"
  by code_simp

text \<open>
  Claim C4 (no reachable state has a self-edge) fails on the code for \<^verbatim>\<open>moveEdge\<close> with
  offset 0 when the new source is the target of the edge. Nodes A and B are created, A
  inherits from B, and \<^verbatim>\<open>moveEdge(A, B, A->B, 0)\<close> is called: \<^verbatim>\<open>moveEdgeWithoutSumming\<close>
  inserts the link to B into B's own successors and rewrites B's predecessor entry to B.
  The path with a nonzero offset goes through \<^verbatim>\<open>addLink\<close>, which refuses \<^verbatim>\<open>Src == Tgt\<close>.
\<close>

theorem moveEdge_onto_target_makes_self_edge:
  "(case run [CreateNode, CreateNode, AddInheritanceLink (Some 0) (Some 1),
              MoveEdge (Some 0) (Some 1) (1, inheritanceTag) 0] emptyTypeSystem of
      Inl e \<Rightarrow> False
    | Inr s \<Rightarrow>
        Layouts s = {0, 1}
        \<and> (1, inheritanceTag) \<in> Successors (Heap s 1)
        \<and> (1, inheritanceTag) \<in> Predecessors (Heap s 1))"
  by code_simp

text \<open>
  Claim C9 (the assertion of \<^verbatim>\<open>addEqualityLink\<close> holds for any two distinct live nodes
  in every reachable state) fails on the code. Nodes A, B, C are created,
  \<^verbatim>\<open>addEqualityLink(A, B)\<close> links them both ways, and \<^verbatim>\<open>moveEdge(A, C, A->B, 0)\<close> moves
  the edge from A to B over to C while B keeps its edge to A. In that state A and B are
  live and distinct, and \<^verbatim>\<open>addEqualityLink(A, B)\<close> fails its assertion: the forward
  insertion is new, the backward one is not.
\<close>

theorem addEqualityLink_assertion_fails_after_moveEdge:
  "(case run [CreateNode, CreateNode, CreateNode, AddEqualityLink (Some 0) (Some 1),
              MoveEdge (Some 0) (Some 2) (1, equalityTag) 0] emptyTypeSystem of
      Inl e \<Rightarrow> False
    | Inr s \<Rightarrow>
        0 \<in> Layouts s \<and> 1 \<in> Layouts s
        \<and> outcome (addLink (Some 0) (Some 1) equalityTag s) = None
        \<and> outcome (addEqualityLink (Some 0) (Some 1) s) = Some AssertionFailure)"
  by code_simp

text \<open>
  The failed insertion of \<^verbatim>\<open>moveEdgeWithoutSumming\<close>: A and C both inherit from B, and
  \<^verbatim>\<open>moveEdge(A, C, A->B, 0)\<close> moves A's edge to C, which holds an equal link already.
\<close>

lemma moveEdge_to_source_holding_the_link:
  "(case run [CreateNode, CreateNode, CreateNode, AddInheritanceLink (Some 0) (Some 1),
              AddInheritanceLink (Some 2) (Some 1)] emptyTypeSystem of
      Inl e \<Rightarrow> False
    | Inr s \<Rightarrow>
        outcome (moveEdge (Some 0) (Some 2) (1, inheritanceTag) 0 s) = Some UndefinedBehaviour)"
  by code_simp




text \<open>
  Claim C7, as stated, makes a null \<^verbatim>\<open>OldSrc\<close> or \<^verbatim>\<open>NewSrc\<close> a fatal error of
  \<^verbatim>\<open>moveEdge\<close>. The code tests for it first and returns: with A inheriting from B, both
  calls below return.
\<close>

theorem moveEdge_null_is_not_fatal:
  "(case run [CreateNode, CreateNode, AddInheritanceLink (Some 0) (Some 1)] emptyTypeSystem of
      Inl e \<Rightarrow> False
    | Inr s \<Rightarrow>
        outcome (moveEdge None (Some 1) (1, inheritanceTag) 0 s) = None
        \<and> outcome (moveEdge (Some 0) None (1, inheritanceTag) 0 s) = None)"
  by code_simp

text \<open>
  Claim C7, amended: \<^verbatim>\<open>moveEdge\<close> with a null \<^verbatim>\<open>OldSrc\<close> or a null \<^verbatim>\<open>NewSrc\<close> returns
  at once and leaves the graph as it was, whatever the edge and the offset.
\<close>

theorem moveEdge_null_returns:
  "OldSrc = None \<or> NewSrc = None \<Longrightarrow> moveEdge OldSrc NewSrc EdgeIt OffsetToSum s = Inr s"
  by (auto simp: moveEdge_def split: option.splits)

theorem moveEdge_null_returns_witness:
  "moveEdge None (Some 1) (1, inheritanceTag) 0 emptyTypeSystem = Inr emptyTypeSystem
   \<and> moveEdge (Some 0) None (1, inheritanceTag) 4 emptyTypeSystem = Inr emptyTypeSystem"
  using moveEdge_null_returns[of None "Some 1" "(1, inheritanceTag)" 0 emptyTypeSystem]
    moveEdge_null_returns[of "Some 0" None "(1, inheritanceTag)" 4 emptyTypeSystem]
  by simp

section \<open>The leaf check\<close>

text \<open>
  Claim C6, as stated, has \<^verbatim>\<open>verifyLeafs\<close> fail only for a node of size 0 with no
  outgoing edge of any kind, and not for a node of size 0 whose only outgoing edges are
  Pointer edges. Node A (size 0) points to node B (size 4): no node is without outgoing
  edges and of size 0, A has exactly one outgoing edge, a Pointer edge, and
  \<^verbatim>\<open>verifyLeafs\<close> returns false.
\<close>

theorem verifyLeafs_pointer_only_counterexample:
  "(case run [CreateNode, CreateNode, SetSize 1 4, AddPointerLink (Some 0) (Some 1)]
           emptyTypeSystem of
      Inl e \<Rightarrow> False
    | Inr s \<Rightarrow>
        verifyLeafs False s = Inr False
        \<and> \<not> (\<exists>n \<in> Layouts s. Successors (Heap s n) = {} \<and> Size (Heap s n) = 0)
        \<and> Successors (Heap s 0) = {(1, pointerTag)} \<and> Size (Heap s 0) = 0)"
  by code_simp

text \<open>
  Claim C6, amended: \<^verbatim>\<open>verifyLeafs\<close> fails exactly when some live node all of whose
  outgoing edges are Pointer edges (none at all included) has \<^verbatim>\<open>Size\<close> 0; failing is
  returning false, or a failed \<^verbatim>\<open>revng_check\<close> in the strict mode. Otherwise it returns
  true.
\<close>

theorem verifyLeafs_result:
  "verifyLeafs strict s =
     (if \<exists>n \<in> Layouts s. (\<forall>l \<in> Successors (Heap s n). Kind (snd l) = LK_Pointer)
                           \<and> Size (Heap s n) = 0
      then (if strict then Inl CheckFailure else Inr False)
      else Inr True)"
proof -
  have "isLeaf LK_All N \<longleftrightarrow> (\<forall>l \<in> Successors N. Kind (snd l) = LK_Pointer)" for N
    unfolding isLeaf_def hasNonPointerLinkKind_def by fastforce
  then show ?thesis
    by (simp add: verifyLeafs_def)
qed

theorem verifyLeafs_result_witness:
  "(case run [CreateNode, CreateNode, SetSize 1 4, AddPointerLink (Some 0) (Some 1)]
           emptyTypeSystem of
      Inl e \<Rightarrow> False
    | Inr s \<Rightarrow> verifyLeafs False s = Inr False \<and> verifyLeafs True s = Inl CheckFailure)"
proof -
  have "case run [CreateNode, CreateNode, SetSize 1 4, AddPointerLink (Some 0) (Some 1)]
             emptyTypeSystem of
      Inl e \<Rightarrow> False
    | Inr s \<Rightarrow> \<exists>n \<in> Layouts s. (\<forall>l \<in> Successors (Heap s n). Kind (snd l) = LK_Pointer)
                           \<and> Size (Heap s n) = 0"
    by code_simp
  then show ?thesis
    by (rule sum_case_weaken) (simp add: verifyLeafs_result)
qed

section \<open>Removing a node\<close>

text \<open>
  What a call \<^verbatim>\<open>removeNode(n)\<close> that returns changes: the live nodes are the former ones
  but n; every remaining node has gained no adjacency entry and has kept every entry that
  does not name n, and has its former \<^verbatim>\<open>Size\<close>, \<^verbatim>\<open>InterferingInfo\<close> and identifier; the
  set of link tags is unchanged. \<^verbatim>\<open>removeNode\<close> visits the neighbours that n lists, so
  that in a graph whose adjacency is mirrored no remaining node has an entry naming n any
  more.
\<close>

lemma removeNode_frame:
  assumes rm: "removeNode n s = Inr s'"
  shows "n \<in> Layouts s \<and> Layouts s' = Layouts s - {n} \<and> LinkTags s' = LinkTags s
     \<and> (\<forall>m \<in> Layouts s'.
           Successors (Heap s' m) \<subseteq> Successors (Heap s m)
         \<and> {l \<in> Successors (Heap s' m). fst l \<noteq> n} = {l \<in> Successors (Heap s m). fst l \<noteq> n}
         \<and> Predecessors (Heap s' m) \<subseteq> Predecessors (Heap s m)
         \<and> {l \<in> Predecessors (Heap s' m). fst l \<noteq> n} = {l \<in> Predecessors (Heap s m). fst l \<noteq> n}
         \<and> Size (Heap s' m) = Size (Heap s m)
         \<and> InterferingInfo (Heap s' m) = InterferingInfo (Heap s m)
         \<and> ID (Heap s' m) = ID (Heap s m))
     \<and> (adjacencyMirrored s \<longrightarrow>
           (\<forall>m \<in> Layouts s'.
              (\<forall>l \<in> Successors (Heap s' m). fst l \<noteq> n)
            \<and> (\<forall>l \<in> Predecessors (Heap s' m). fst l \<noteq> n)))"
proof -
  note r = removeNode_result[OF rm]
  have frame: "Successors (Heap s' m) \<subseteq> Successors (Heap s m)
         \<and> {l \<in> Successors (Heap s' m). fst l \<noteq> n} = {l \<in> Successors (Heap s m). fst l \<noteq> n}
         \<and> Predecessors (Heap s' m) \<subseteq> Predecessors (Heap s m)
         \<and> {l \<in> Predecessors (Heap s' m). fst l \<noteq> n} = {l \<in> Predecessors (Heap s m). fst l \<noteq> n}"
    if m: "m \<noteq> n" for m :: NodePtr
    by (auto simp: r(5)[OF m] r(6))
  have gone: "(\<forall>l \<in> Successors (Heap s' m). fst l \<noteq> n)
            \<and> (\<forall>l \<in> Predecessors (Heap s' m). fst l \<noteq> n)"
    if mir: "adjacencyMirrored s" and m: "m \<in> Layouts s" "m \<noteq> n" for m :: NodePtr
  proof -
    have towards_n: "(m, t) \<in> Predecessors (Heap s n)" if "(n, t) \<in> Successors (Heap s m)" for t
      using mir m(1) that unfolding adjacencyMirrored_def by force
    have from_n: "(m, t) \<in> Successors (Heap s n)" if "(n, t) \<in> Predecessors (Heap s m)" for t
      using mir m(1) that unfolding adjacencyMirrored_def by force
    have "fst l \<noteq> n" if "l \<in> Successors (Heap s' m)" for l
      using that towards_n[of "snd l"] m(2) by (force simp: r(5)[OF m(2)] image_iff split: if_splits)
    moreover have "fst l \<noteq> n" if "l \<in> Predecessors (Heap s' m)" for l
      using that from_n[of "snd l"] m(2) by (force simp: r(6) image_iff split: if_splits)
    ultimately show ?thesis by blast
  qed
  have "\<forall>m \<in> Layouts s'.
           Successors (Heap s' m) \<subseteq> Successors (Heap s m)
         \<and> {l \<in> Successors (Heap s' m). fst l \<noteq> n} = {l \<in> Successors (Heap s m). fst l \<noteq> n}
         \<and> Predecessors (Heap s' m) \<subseteq> Predecessors (Heap s m)
         \<and> {l \<in> Predecessors (Heap s' m). fst l \<noteq> n} = {l \<in> Predecessors (Heap s m). fst l \<noteq> n}
         \<and> Size (Heap s' m) = Size (Heap s m)
         \<and> InterferingInfo (Heap s' m) = InterferingInfo (Heap s m)
         \<and> ID (Heap s' m) = ID (Heap s m)"
    using frame by (simp add: r(2,7,8,9))
  moreover have "\<forall>m \<in> Layouts s'.
              (\<forall>l \<in> Successors (Heap s' m). fst l \<noteq> n)
            \<and> (\<forall>l \<in> Predecessors (Heap s' m). fst l \<noteq> n)" if "adjacencyMirrored s"
    using gone[OF that] unfolding r(2) by blast
  ultimately show ?thesis
    using r(1,2,3) by blast
qed

text \<open>
  Claim C10 (after \<^verbatim>\<open>removeNode(n)\<close> for a live node n, no remaining node has an adjacency
  entry naming n) fails on the code in a state that the calls reach. Nodes A and B are
  created, A inherits from B, and \<^verbatim>\<open>moveEdge(A, A, A->B, -1)\<close> leaves A listing B as a
  successor while B no longer lists A as a predecessor. In that state B is live,
  \<^verbatim>\<open>removeNode(B)\<close> finds no neighbour to visit and returns, and the remaining node A
  still has the entry naming B, now a dangling pointer.
\<close>

theorem removeNode_leaves_entry_after_moveEdge:
  "(case run [CreateNode, CreateNode, AddInheritanceLink (Some 0) (Some 1),
              MoveEdge (Some 0) (Some 0) (1, inheritanceTag) (- 1)] emptyTypeSystem of
      Inl e \<Rightarrow> False
    | Inr s \<Rightarrow>
        1 \<in> Layouts s
        \<and> (case removeNode 1 s of
              Inl e \<Rightarrow> False
            | Inr s' \<Rightarrow>
                Layouts s' = {0} \<and> (1, inheritanceTag) \<in> Successors (Heap s' 0)))"
  by code_simp

section \<open>Removed identifiers\<close>

text \<open>
  Claim C8: in any state that calls have led to from the empty graph, after
  \<^verbatim>\<open>removeNode(A)\<close> has returned, \<^verbatim>\<open>isRemoved\<close> of A's identifier is true, and it is
  true again once the classes have been compressed; the removed sentinel \<^verbatim>\<open>RemovedID\<close> is
  set, and whatever calls follow, it keeps its value and \<^verbatim>\<open>isRemoved\<close> of A's identifier
  stays true.
\<close>

theorem removed_node_stays_removed:
  assumes "run cs emptyTypeSystem = Inr s" and "removeNode n s = Inr s'"
  shows "isRemoved (ID (Heap s n)) (EqClasses s') = Inr True
       \<and> isRemoved (ID (Heap s n)) (compress (EqClasses s')) = Inr True
       \<and> RemovedID (EqClasses s') \<noteq> None
       \<and> (\<forall>cs' s''. run cs' s' = Inr s'' \<longrightarrow>
             RemovedID (EqClasses s'') = RemovedID (EqClasses s')
             \<and> isRemoved (ID (Heap s n)) (EqClasses s'') = Inr True)"
proof -
  have cc: "classesConsistent s"
    using run_classes[OF assms(1)] emptyTypeSystem_classes by simp
  have rm: "perform (RemoveNode n) s = Inr s'" using assms(2) by simp
  have cc': "classesConsistent s'" using perform_classes[OF rm] cc by simp
  from assms(2) have e: "remove (ID (Heap s n)) (EqClasses s) = Inr (EqClasses s')"
    by (auto simp: removeNode_def Let_def split: if_splits sum.splits)
  have live: "n \<in> Layouts s" using removeNode_result(1)[OF assms(2)] .
  with cc have b: "ID (Heap s n) < length (EC (EqClasses s))"
    by (simp add: classesConsistent_def)
  from remove_result(1,2)[OF e b] b
  have 1: "isRemoved (ID (Heap s n)) (EqClasses s') = Inr True"
    by (auto simp: isRemoved_True_iff)
  then have 3: "RemovedID (EqClasses s') \<noteq> None" by (auto simp: isRemoved_True_iff)
  have 2: "isRemoved (ID (Heap s n)) (compress (EqClasses s')) = Inr True"
    using compress_keeps_removed[OF _ 1] cc' by (simp add: classesConsistent_def)
  have 4: "RemovedID (EqClasses s'') = RemovedID (EqClasses s')
             \<and> isRemoved (ID (Heap s n)) (EqClasses s'') = Inr True"
    if "run cs' s' = Inr s''" for cs' s''
    using run_classes[OF that, of "ID (Heap s n)"] cc' 1 3 by simp
  from 1 2 3 4 show ?thesis by blast
qed

theorem removed_node_stays_removed_witness:
  "(case run [CreateNode, CreateNode, CreateNode, RemoveNode 2] emptyTypeSystem of
      Inl e \<Rightarrow> False
    | Inr s \<Rightarrow>
        (case removeNode 1 s of
           Inl e \<Rightarrow> False
         | Inr s' \<Rightarrow>
             isRemoved 1 (EqClasses s') = Inr True
             \<and> isRemoved 1 (compress (EqClasses s')) = Inr True
             \<and> RemovedID (EqClasses s') \<noteq> None))"
proof -
  let ?r = "run [CreateNode, CreateNode, CreateNode, RemoveNode 2] emptyTypeSystem"
  have ev: "case ?r of
      Inl e \<Rightarrow> False
    | Inr s \<Rightarrow> ID (Heap s 1) = 1 \<and> outcome (removeNode 1 s) = None"
    by code_simp
  show ?thesis
  proof (cases ?r)
    case (Inl e)
    with ev show ?thesis by (simp only: sum.case)
  next
    case (Inr s)
    from ev have f: "ID (Heap s 1) = 1" "outcome (removeNode 1 s) = None"
      unfolding Inr by simp_all
    from f(2) obtain s' where rm: "removeNode 1 s = Inr s'"
      by (auto simp: outcome_None_iff)
    from removed_node_stays_removed[OF Inr rm] f(1)
    have "isRemoved 1 (EqClasses s') = Inr True
             \<and> isRemoved 1 (compress (EqClasses s')) = Inr True
             \<and> RemovedID (EqClasses s') \<noteq> None"
      by simp
    with rm show ?thesis unfolding Inr by simp
  qed
qed

end
